theory Spec2Isabelle
  imports Complex_Main
begin

section \<open>Numbers\<close>

text \<open>
  The simulation computes with JavaScript numbers. The fields of an agent hold finite
  values and are modelled as \<^typ>\<open>real\<close>: rounding, overflow and the sign of zero are
  not modelled. The one operation of the program that leaves the finite numbers is the
  division in \<open>getContext\<close>: a division by zero does not throw in JavaScript, it
  yields \<open>Infinity\<close>, \<open>-Infinity\<close> or \<open>NaN\<close>. The quotient and the scores computed
  from it are therefore values of \<open>jsnum\<close>, with the arithmetic and the comparison
  of IEEE 754 on the non-finite values.
\<close>

datatype jsnum = Fin real | PInf | NInf | NaN

fun js_finite :: "jsnum \<Rightarrow> bool" where
  "js_finite (Fin x) = True"
| "js_finite PInf = False"
| "js_finite NInf = False"
| "js_finite NaN = False"

definition js_div :: "real \<Rightarrow> real \<Rightarrow> jsnum" where
  "js_div x y =
     (if y = 0 then (if x = 0 then NaN else if 0 < x then PInf else NInf)
      else Fin (x / y))"

fun js_neg :: "jsnum \<Rightarrow> jsnum" where
  "js_neg (Fin x) = Fin (- x)"
| "js_neg PInf = NInf"
| "js_neg NInf = PInf"
| "js_neg NaN = NaN"

fun js_add :: "jsnum \<Rightarrow> jsnum \<Rightarrow> jsnum" where
  "js_add NaN b = NaN"
| "js_add a NaN = NaN"
| "js_add (Fin x) (Fin y) = Fin (x + y)"
| "js_add (Fin x) b = b"
| "js_add a (Fin y) = a"
| "js_add PInf PInf = PInf"
| "js_add NInf NInf = NInf"
| "js_add PInf NInf = NaN"
| "js_add NInf PInf = NaN"

definition js_sub :: "jsnum \<Rightarrow> jsnum \<Rightarrow> jsnum" where
  "js_sub a b = js_add a (js_neg b)"

fun js_sign :: "jsnum \<Rightarrow> int" where
  "js_sign (Fin x) = (if x = 0 then 0 else if 0 < x then 1 else - 1)"
| "js_sign PInf = 1"
| "js_sign NInf = - 1"
| "js_sign NaN = 0"

fun js_mul :: "jsnum \<Rightarrow> jsnum \<Rightarrow> jsnum" where
  "js_mul NaN b = NaN"
| "js_mul a NaN = NaN"
| "js_mul (Fin x) (Fin y) = Fin (x * y)"
| "js_mul a b =
     (if js_sign a * js_sign b = 0 then NaN
      else if 0 < js_sign a * js_sign b then PInf else NInf)"

fun js_gt :: "jsnum \<Rightarrow> jsnum \<Rightarrow> bool" where
  "js_gt NaN b = False"
| "js_gt a NaN = False"
| "js_gt (Fin x) (Fin y) = (y < x)"
| "js_gt PInf PInf = False"
| "js_gt PInf b = True"
| "js_gt a PInf = False"
| "js_gt NInf b = False"
| "js_gt (Fin x) NInf = True"

section \<open>Economy and agents\<close>

record economy_state =
  recession :: bool

definition economy :: economy_state where
  "economy = \<lparr>recession = True\<rparr>"

record business_record =
  revenue :: real

record agent =
  name :: string
  color :: string
  cash :: real
  salary :: real
  rent :: real
  food :: real
  otherExpenses :: real
  investments :: real
  riskTolerance :: real
  discipline :: real
  intelligence :: real
  stress :: real
  employed :: bool
  sideHustle :: bool
  business :: "business_record option"
  alive :: bool

definition createAI :: "string \<Rightarrow> real \<Rightarrow> real \<Rightarrow> real \<Rightarrow> string \<Rightarrow> agent" where
  "createAI nm rt di iq col =
     \<lparr>name = nm, color = col, cash = 5000, salary = 2000, rent = 800, food = 400,
      otherExpenses = 300, investments = 0, riskTolerance = rt, discipline = di,
      intelligence = iq, stress = 0, employed = True, sideHustle = False,
      business = None, alive = True\<rparr>"

definition agents :: "agent list" where
  "agents =
     [createAI ''Conservative'' 0.2 0.9 0.8 ''#4caf50'',
      createAI ''Balanced'' 0.5 0.7 0.8 ''#2196f3'',
      createAI ''Risky'' 0.9 0.3 0.7 ''#ff9800'']"

definition TOTAL_MONTHS :: nat where
  "TOTAL_MONTHS = 60"

section \<open>The monthly steps\<close>

text \<open>
  Every call of \<open>Math.random()\<close> is a parameter of the function that makes it: the
  value in \<open>[0, 1)\<close> that the call returned.
\<close>

definition processIncome :: "real \<Rightarrow> agent \<Rightarrow> agent" where
  "processIncome u ai =
     (let ai1 = (if employed ai then ai\<lparr>cash := cash ai + salary ai\<rparr> else ai);
          ai2 = (if sideHustle ai1 then ai1\<lparr>cash := cash ai1 + (300 + u * 400)\<rparr> else ai1)
      in case business ai2 of
           None \<Rightarrow> ai2
         | Some b \<Rightarrow> ai2\<lparr>cash := cash ai2 + revenue b\<rparr>)"

definition processExpenses :: "agent \<Rightarrow> agent" where
  "processExpenses ai = ai\<lparr>cash := cash ai - (rent ai + food ai + otherExpenses ai)\<rparr>"

definition randomEvents :: "economy_state \<Rightarrow> real \<Rightarrow> agent \<Rightarrow> agent" where
  "randomEvents eco r ai =
     (if recession eco \<and> r < 0.08 then ai\<lparr>employed := False, stress := stress ai + 20\<rparr>
      else if r < 0.03 then ai\<lparr>employed := False, stress := stress ai + 20\<rparr>
      else if r < 0.06 then ai\<lparr>cash := cash ai - 2000\<rparr>
      else ai)"

text \<open>The branch of \<open>randomEvents\<close> that a draw takes, in the order of the source.\<close>

datatype event_branch = RecessionJobLoss | JobLoss | UnexpectedExpense | NoEvent

definition event_branch_of :: "economy_state \<Rightarrow> real \<Rightarrow> event_branch" where
  "event_branch_of eco r =
     (if recession eco \<and> r < 0.08 then RecessionJobLoss
      else if r < 0.03 then JobLoss
      else if r < 0.06 then UnexpectedExpense
      else NoEvent)"

record agent_context =
  emergencyMonths :: jsnum

definition getContext :: "agent \<Rightarrow> agent_context" where
  "getContext ai =
     (let expenses = rent ai + food ai + otherExpenses ai
      in \<lparr>emergencyMonths = js_div (cash ai) expenses\<rparr>)"

section \<open>Scoring and decision\<close>

datatype action = save | invest | start_business | job_search

text \<open>The position of a key in \<open>Object.keys(scores)\<close>: the order of the object literal.\<close>

fun key_index :: "action \<Rightarrow> nat" where
  "key_index save = 0"
| "key_index invest = 1"
| "key_index start_business = 2"
| "key_index job_search = 3"

fun initial_scores :: "agent \<Rightarrow> action \<Rightarrow> jsnum" where
  "initial_scores ai save =
     js_sub
       (js_add (js_mul (js_sub (Fin 3) (emergencyMonths (getContext ai))) (Fin 20))
               (Fin (discipline ai * 10)))
       (Fin (riskTolerance ai * 5))"
| "initial_scores ai invest =
     (if js_gt (emergencyMonths (getContext ai)) (Fin 3)
      then js_add (js_mul (emergencyMonths (getContext ai)) (Fin 5)) (Fin (discipline ai * 10))
      else Fin (- 100))"
| "initial_scores ai start_business =
     (if 5000 < cash ai \<and> business ai = None then Fin (riskTolerance ai * 30)
      else Fin (- 100))"
| "initial_scores ai job_search = (if \<not> employed ai then Fin 100 else Fin (- 100))"

text \<open>
  The jitter loop adds \<open>(Math.random() - 0.5) * 5\<close> to the score of each key; \<open>u k\<close>
  is the draw made for key \<open>k\<close>.
\<close>

definition scores :: "(action \<Rightarrow> real) \<Rightarrow> agent \<Rightarrow> action \<Rightarrow> jsnum" where
  "scores u ai k = js_add (initial_scores ai k) (Fin ((u k - 0.5) * 5))"

text \<open>
  The callback of the reduction, \<open>(a, b) => scores[a] > scores[b] ? a : b\<close>.
  \<open>Object.keys(scores).reduce(...)\<close> has no initial value: the accumulator starts at
  the first key, \<open>save\<close>, and the callback runs on the three keys after it.
\<close>

definition pick :: "(action \<Rightarrow> jsnum) \<Rightarrow> action \<Rightarrow> action \<Rightarrow> action" where
  "pick s a b = (if js_gt (s a) (s b) then a else b)"

definition best_action :: "(action \<Rightarrow> jsnum) \<Rightarrow> action" where
  "best_action s = foldl (pick s) save [invest, start_business, job_search]"

fun executeAction :: "agent \<Rightarrow> action \<Rightarrow> agent" where
  "executeAction ai invest =
     (let amount = cash ai * 0.2
      in ai\<lparr>investments := investments ai + amount, cash := cash ai - amount\<rparr>)"
| "executeAction ai start_business =
     ai\<lparr>cash := cash ai - 5000, business := Some \<lparr>revenue = 1000\<rparr>\<rparr>"
| "executeAction ai job_search = ai\<lparr>employed := True\<rparr>"
| "executeAction ai save = ai"

definition decisionEngine :: "(action \<Rightarrow> real) \<Rightarrow> agent \<Rightarrow> action \<times> agent" where
  "decisionEngine u ai =
     (let best = best_action (scores u ai)
      in (best, executeAction ai best))"

definition applyInvestments :: "real \<Rightarrow> agent \<Rightarrow> agent" where
  "applyInvestments u ai =
     (let returnRate = (u - 0.5) * 0.1
      in ai\<lparr>investments := investments ai * (1 + returnRate)\<rparr>)"

definition updateStress :: "agent \<Rightarrow> agent" where
  "updateStress ai =
     (let ai1 = (if cash ai < rent ai then ai\<lparr>stress := stress ai + 15\<rparr> else ai)
      in ai1\<lparr>stress := max 0 (stress ai1 - 5)\<rparr>)"

section \<open>One month of one agent\<close>

record draws =
  side_draw :: real
  event_draw :: real
  jitter_draw :: "action \<Rightarrow> real"
  return_draw :: real

definition runMonth :: "economy_state \<Rightarrow> draws \<Rightarrow> agent \<Rightarrow> action \<times> agent" where
  "runMonth eco d ai =
     (let ai1 = processIncome (side_draw d) ai;
          ai2 = processExpenses ai1;
          ai3 = randomEvents eco (event_draw d) ai2;
          (act, ai4) = decisionEngine (jitter_draw d) ai3;
          ai5 = applyInvestments (return_draw d) ai4;
          ai6 = updateStress ai5;
          ai7 = (if cash ai6 < 0 then ai6\<lparr>alive := False\<rparr> else ai6)
      in (act, ai7))"

section \<open>The population driver\<close>

text \<open>
  The action map is a JavaScript object keyed by the agents' names, holding the label
  returned by \<open>runMonth\<close> or the placeholder \<open>"BANKRUPT"\<close>.
\<close>

fun action_label :: "action \<Rightarrow> string" where
  "action_label save = ''save''"
| "action_label invest = ''invest''"
| "action_label start_business = ''start_business''"
| "action_label job_search = ''job_search''"

record sim_state =
  currentMonth :: nat
  population :: "agent list"

text \<open>
  The body of \<open>agents.forEach\<close> in \<open>simulateMonth\<close>, on the agents from position
  \<open>i\<close> on; \<open>D i\<close> holds the draws of the agent at position \<open>i\<close>.
\<close>

fun for_each_agent ::
  "economy_state \<Rightarrow> (nat \<Rightarrow> draws) \<Rightarrow> nat \<Rightarrow> agent list \<Rightarrow> (string \<rightharpoonup> string)
     \<Rightarrow> (string \<rightharpoonup> string) \<times> agent list" where
  "for_each_agent eco D i [] actions = (actions, [])"
| "for_each_agent eco D i (ai # rest) actions =
     (if alive ai then
        (let (act, ai') = runMonth eco (D i) ai;
             (actions', rest') =
               for_each_agent eco D (Suc i) rest (actions(name ai \<mapsto> action_label act))
         in (actions', ai' # rest'))
      else
        (let (actions', rest') =
               for_each_agent eco D (Suc i) rest (actions(name ai \<mapsto> ''BANKRUPT''))
         in (actions', ai # rest')))"

text \<open>
  One call of \<open>simulateMonth\<close>: \<open>None\<close> when the end condition returns before any
  map is built, otherwise the map handed to \<open>updateUI\<close>.
\<close>

definition simulateMonth ::
  "economy_state \<Rightarrow> (nat \<Rightarrow> draws) \<Rightarrow> sim_state \<Rightarrow> (string \<rightharpoonup> string) option \<times> sim_state" where
  "simulateMonth eco D st =
     (if TOTAL_MONTHS \<le> currentMonth st then (None, st)
      else
        (let month = currentMonth st + 1;
             (actions, ags) = for_each_agent eco D 0 (population st) Map.empty
         in (Some actions, \<lparr>currentMonth = month, population = ags\<rparr>)))"

text \<open>
  The chain of calls that \<open>setTimeout(simulateMonth, 800)\<close> schedules, as the list of
  the maps emitted and the states reached; \<open>D m\<close> holds the draws of month \<open>m\<close>.
\<close>

function simulation ::
  "economy_state \<Rightarrow> (nat \<Rightarrow> nat \<Rightarrow> draws) \<Rightarrow> sim_state
     \<Rightarrow> ((string \<rightharpoonup> string) \<times> sim_state) list" where
  "simulation eco D st =
     (case simulateMonth eco (D (currentMonth st + 1)) st of
        (None, st') \<Rightarrow> []
      | (Some actions, st') \<Rightarrow> (actions, st') # simulation eco D st')"
  by pat_completeness auto
termination
  by (relation "measure (\<lambda>(eco, D, st). TOTAL_MONTHS - currentMonth st)")
    (auto simp: simulateMonth_def Let_def split: if_splits prod.splits)

section \<open>Reachable agent states\<close>

definition valid_draw :: "real \<Rightarrow> bool" where
  "valid_draw u = (0 \<le> u \<and> u < 1)"

definition valid_draws :: "draws \<Rightarrow> bool" where
  "valid_draws d =
     (valid_draw (side_draw d) \<and> valid_draw (event_draw d) \<and>
      valid_draw (jitter_draw d save) \<and> valid_draw (jitter_draw d invest) \<and>
      valid_draw (jitter_draw d start_business) \<and> valid_draw (jitter_draw d job_search) \<and>
      valid_draw (return_draw d))"

text \<open>
  One mutating operation of the program on an agent, with draws that
  \<open>Math.random()\<close> can return. The statements of \<open>runMonth\<close> are such operations, so
  every state an agent is in during or after a month is reached by a chain of them.
\<close>

inductive step :: "agent \<Rightarrow> agent \<Rightarrow> bool" where
  income: "valid_draw u \<Longrightarrow> step ai (processIncome u ai)"
| expenses: "step ai (processExpenses ai)"
| events: "valid_draw u \<Longrightarrow> step ai (randomEvents eco u ai)"
| decision:
    "valid_draw (u save) \<Longrightarrow> valid_draw (u invest) \<Longrightarrow> valid_draw (u start_business)
       \<Longrightarrow> valid_draw (u job_search) \<Longrightarrow> step ai (snd (decisionEngine u ai))"
| returns: "valid_draw u \<Longrightarrow> step ai (applyInvestments u ai)"
| stress_update: "step ai (updateStress ai)"
| insolvency: "cash ai < 0 \<Longrightarrow> step ai (ai\<lparr>alive := False\<rparr>)"

text \<open>
  The states of an agent made by \<open>createAI\<close> with traits in \<open>[0, 1]\<close>, as the three
  agents of the program are.
\<close>

inductive reachable :: "agent \<Rightarrow> bool" where
  created:
    "0 \<le> rt \<Longrightarrow> rt \<le> 1 \<Longrightarrow> 0 \<le> di \<Longrightarrow> di \<le> 1 \<Longrightarrow> reachable (createAI nm rt di iq col)"
| stepped: "reachable ai \<Longrightarrow> step ai ai' \<Longrightarrow> reachable ai'"

section \<open>Auxiliary notions and example states\<close>

text \<open>
  \<open>last_max s ks r\<close>: among the keys \<open>ks\<close>, \<open>r\<close> has a score that no key exceeds
  and that exceeds the score of every key after \<open>r\<close>.
\<close>

definition last_max :: "(action \<Rightarrow> jsnum) \<Rightarrow> action list \<Rightarrow> action \<Rightarrow> bool" where
  "last_max s ks r =
     (r \<in> set ks \<and> s r \<noteq> NaN \<and> (\<forall>x \<in> set ks. \<not> js_gt (s x) (s r)) \<and>
      (\<forall>x \<in> set ks. key_index r < key_index x \<longrightarrow> js_gt (s r) (s x)))"

text \<open>An agent whose three fixed costs are zero.\<close>

definition zero_cost_agent :: agent where
  "zero_cost_agent =
     (createAI ''Idle'' 0.5 0.5 0.5 ''#000000'')\<lparr>rent := 0, food := 0, otherExpenses := 0\<rparr>"

text \<open>
  An employed agent with cash 6000 and no business, whose \<open>invest\<close> and
  \<open>start_business\<close> scores are both 22.5 before the jitter.
\<close>

definition tied_agent :: agent where
  "tied_agent = (createAI ''Tied'' 0.75 0.25 0.5 ''#888888'')\<lparr>cash := 6000\<rparr>"

definition balanced :: agent where
  "balanced = createAI ''Balanced'' 0.5 0.7 0.8 ''#2196f3''"

definition risky :: agent where
  "risky = createAI ''Risky'' 0.9 0.3 0.7 ''#ff9800''"

text \<open>The draws that are all 0.5: no jitter and no investment return.\<close>

definition mid_draws :: draws where
  "mid_draws =
     \<lparr>side_draw = 0.5, event_draw = 0.5, jitter_draw = (\<lambda>k. 0.5), return_draw = 0.5\<rparr>"

text \<open>The scenario state: unemployed, cash 100, no business, fixed costs 1500.\<close>

definition scenario_agent :: agent where
  "scenario_agent = balanced\<lparr>employed := False, cash := 100\<rparr>"

text \<open>
  The agent \<open>risky\<close> in its first month: after income and expenses, and then after a
  decision without jitter, which starts a business.
\<close>

definition risky_paid :: agent where
  "risky_paid = processExpenses (processIncome 0.5 risky)"

definition risky_owner :: agent where
  "risky_owner = snd (decisionEngine (\<lambda>k. 0.5) risky_paid)"

text \<open>The last month of a simulation in which the first agent is bankrupt.\<close>

definition late_state :: sim_state where
  "late_state =
     \<lparr>currentMonth = 59, population = [risky\<lparr>cash := - 100, alive := False\<rparr>, balanced]\<rparr>"

text \<open>
  What \<open>createAI\<close> fixes for the lifetime of an agent with traits in \<open>[0, 1]\<close>: the
  three costs, the range of the two traits that the scores read, and the only business
  record that the program creates.
\<close>

definition agent_inv :: "agent \<Rightarrow> bool" where
  "agent_inv ai =
     (rent ai = 800 \<and> food ai = 400 \<and> otherExpenses ai = 300 \<and>
      0 \<le> riskTolerance ai \<and> riskTolerance ai \<le> 1 \<and>
      0 \<le> discipline ai \<and> discipline ai \<le> 1 \<and>
      (business ai = None \<or> business ai = Some \<lparr>revenue = 1000\<rparr>))"

declare simulation.simps [simp del]

section \<open>Comparison of scores\<close>

lemma js_gt_irrefl: "\<not> js_gt a a"
  by (cases a) simp_all

lemma js_gt_asym: "js_gt a b \<Longrightarrow> \<not> js_gt b a"
  by (cases a; cases b) simp_all

lemma js_gt_not_NaN: "js_gt a b \<Longrightarrow> a \<noteq> NaN \<and> b \<noteq> NaN"
  by (cases a; cases b) simp_all

lemma js_gt_negtrans: "\<not> js_gt a b \<Longrightarrow> \<not> js_gt b c \<Longrightarrow> b \<noteq> NaN \<Longrightarrow> \<not> js_gt a c"
  by (cases a; cases b; cases c) simp_all

lemma js_add_Fin_not_NaN: "a \<noteq> NaN \<Longrightarrow> js_add a (Fin y) \<noteq> NaN"
  by (cases a) simp_all

text \<open>Only the \<open>save\<close> score reads the quotient without a guard, so only it can be \<open>NaN\<close>.\<close>

lemma initial_scores_not_NaN: "k \<noteq> save \<Longrightarrow> initial_scores ai k \<noteq> NaN"
proof (cases k)
  case invest
  show ?thesis
  proof (cases "emergencyMonths (getContext ai)")
    case (Fin x)
    then show ?thesis using invest by simp
  next
    case PInf
    then show ?thesis using invest by simp
  next
    case NInf
    then show ?thesis using invest by simp
  next
    case NaN
    then show ?thesis using invest by simp
  qed
qed simp_all

lemma scores_not_NaN: "k \<noteq> save \<Longrightarrow> scores u ai k \<noteq> NaN"
  by (simp add: scores_def js_add_Fin_not_NaN initial_scores_not_NaN)

lemma last_max_start:
  assumes "s invest \<noteq> NaN"
  shows "last_max s [save, invest] (pick s save invest)"
  using assms js_gt_not_NaN [of "s save" "s invest"] js_gt_asym [of "s save" "s invest"]
  by (auto simp: last_max_def pick_def js_gt_irrefl)

lemma last_max_step:
  assumes "last_max s ks r" and "s b \<noteq> NaN" and "\<forall>x \<in> set ks. key_index x < key_index b"
  shows "last_max s (ks @ [b]) (pick s r b)"
proof (cases "js_gt (s r) (s b)")
  case True
  then have "\<not> js_gt (s b) (s r)" by (rule js_gt_asym)
  with True assms show ?thesis
    by (auto simp: last_max_def pick_def)
next
  case False
  have "\<not> js_gt (s x) (s b)" if "x \<in> set ks" for x
    using assms(1) that False js_gt_negtrans [of "s x" "s r" "s b"]
    by (auto simp: last_max_def)
  moreover have "\<not> key_index b < key_index x" if "x \<in> set ks" for x
    using assms(3) that by force
  ultimately show ?thesis
    using False assms(2) by (auto simp: last_max_def pick_def js_gt_irrefl)
qed

lemma best_action_last_max:
  assumes "s invest \<noteq> NaN" "s start_business \<noteq> NaN" "s job_search \<noteq> NaN"
  shows "last_max s [save, invest, start_business, job_search] (best_action s)"
proof -
  have 1: "last_max s [save, invest] (pick s save invest)"
    using assms(1) by (rule last_max_start)
  have 2: "last_max s ([save, invest] @ [start_business])
             (pick s (pick s save invest) start_business)"
    using 1 assms(2) by (rule last_max_step) simp
  have 3: "last_max s (([save, invest] @ [start_business]) @ [job_search])
             (pick s (pick s (pick s save invest) start_business) job_search)"
    using 2 assms(3) by (rule last_max_step) simp
  have "best_action s = pick s (pick s (pick s save invest) start_business) job_search"
    by (simp add: best_action_def)
  with 3 show ?thesis by simp
qed

lemma all_actions: "set [save, invest, start_business, job_search] = UNIV"
  using action.exhaust by auto

lemma decisionEngine_last_max:
  "last_max (scores u ai) [save, invest, start_business, job_search] (fst (decisionEngine u ai))"
  using best_action_last_max [of "scores u ai"]
  by (simp add: scores_not_NaN decisionEngine_def Let_def)

lemma decisionEngine_not_exceeded:
  "\<not> js_gt (scores u ai k) (scores u ai (fst (decisionEngine u ai)))"
  using decisionEngine_last_max [of u ai] all_actions unfolding last_max_def by blast

lemma decisionEngine_dominant:
  assumes "\<And>k'. k' \<noteq> k \<Longrightarrow> js_gt (scores u ai k) (scores u ai k')"
  shows "fst (decisionEngine u ai) = k"
  using assms decisionEngine_not_exceeded [of u ai k] by blast

lemma emergencyMonths_finite:
  "rent ai + food ai + otherExpenses ai \<noteq> 0 \<Longrightarrow>
     emergencyMonths (getContext ai) = Fin (cash ai / (rent ai + food ai + otherExpenses ai))"
  by (simp add: getContext_def js_div_def)

section \<open>What each operation leaves unchanged\<close>

lemma executeAction_frame:
  "name (executeAction ai k) = name ai"
  "rent (executeAction ai k) = rent ai"
  "food (executeAction ai k) = food ai"
  "otherExpenses (executeAction ai k) = otherExpenses ai"
  "riskTolerance (executeAction ai k) = riskTolerance ai"
  "discipline (executeAction ai k) = discipline ai"
  "sideHustle (executeAction ai k) = sideHustle ai"
  "alive (executeAction ai k) = alive ai"
  "stress (executeAction ai k) = stress ai"
  by (cases k; simp add: Let_def)+

lemma executeAction_business:
  "business (executeAction ai k) =
     (if k = start_business then Some \<lparr>revenue = 1000\<rparr> else business ai)"
  by (cases k) (simp_all add: Let_def)

lemma ops_name:
  "name (processIncome u ai) = name ai"
  "name (processExpenses ai) = name ai"
  "name (randomEvents eco u ai) = name ai"
  "name (snd (decisionEngine v ai)) = name ai"
  "name (applyInvestments u ai) = name ai"
  "name (updateStress ai) = name ai"
  by (simp_all add: processIncome_def processExpenses_def randomEvents_def decisionEngine_def
      applyInvestments_def updateStress_def executeAction_frame Let_def split: option.splits)

lemma ops_alive:
  "alive (processIncome u ai) = alive ai"
  "alive (processExpenses ai) = alive ai"
  "alive (randomEvents eco u ai) = alive ai"
  "alive (snd (decisionEngine v ai)) = alive ai"
  "alive (applyInvestments u ai) = alive ai"
  "alive (updateStress ai) = alive ai"
  by (simp_all add: processIncome_def processExpenses_def randomEvents_def decisionEngine_def
      applyInvestments_def updateStress_def executeAction_frame Let_def split: option.splits)

lemma step_sideHustle: "step ai ai' \<Longrightarrow> sideHustle ai' = sideHustle ai"
  by (induction rule: step.induct)
    (simp_all add: processIncome_def processExpenses_def randomEvents_def decisionEngine_def
      applyInvestments_def updateStress_def executeAction_frame Let_def split: option.splits)

lemma steps_sideHustle: "step\<^sup>*\<^sup>* ai ai' \<Longrightarrow> sideHustle ai' = sideHustle ai"
  by (induction rule: rtranclp_induct) (simp_all add: step_sideHustle)

lemma step_business:
  "step ai ai' \<Longrightarrow> business ai = Some \<lparr>revenue = 1000\<rparr> \<Longrightarrow> business ai' = Some \<lparr>revenue = 1000\<rparr>"
  by (induction rule: step.induct)
    (simp_all add: processIncome_def processExpenses_def randomEvents_def decisionEngine_def
      applyInvestments_def updateStress_def executeAction_business Let_def split: option.splits)

lemma steps_business:
  "step\<^sup>*\<^sup>* ai ai' \<Longrightarrow> business ai = Some \<lparr>revenue = 1000\<rparr> \<Longrightarrow> business ai' = Some \<lparr>revenue = 1000\<rparr>"
  by (induction rule: rtranclp_induct) (simp_all add: step_business)

lemma step_alive: "step ai ai' \<Longrightarrow> \<not> alive ai \<Longrightarrow> \<not> alive ai'"
  by (induction rule: step.induct) (simp_all add: ops_alive)

lemma runMonth_alive: "\<not> alive ai \<Longrightarrow> \<not> alive (snd (runMonth eco d ai))"
  by (simp add: runMonth_def Let_def split_beta ops_alive)

lemma runMonth_name: "name (snd (runMonth eco d ai)) = name ai"
  by (simp add: runMonth_def Let_def split_beta ops_name)

text \<open>A month of \<open>runMonth\<close> is a chain of operations.\<close>

lemma runMonth_steps:
  assumes "valid_draws d"
  shows "step\<^sup>*\<^sup>* ai (snd (runMonth eco d ai))"
proof -
  define ai1 where "ai1 = processIncome (side_draw d) ai"
  define ai2 where "ai2 = processExpenses ai1"
  define ai3 where "ai3 = randomEvents eco (event_draw d) ai2"
  define ai4 where "ai4 = snd (decisionEngine (jitter_draw d) ai3)"
  define ai5 where "ai5 = applyInvestments (return_draw d) ai4"
  define ai6 where "ai6 = updateStress ai5"
  define ai7 where "ai7 = (if cash ai6 < 0 then ai6\<lparr>alive := False\<rparr> else ai6)"
  have "step ai ai1" "step ai1 ai2" "step ai2 ai3" "step ai3 ai4" "step ai4 ai5" "step ai5 ai6"
    using assms unfolding ai1_def ai2_def ai3_def ai4_def ai5_def ai6_def valid_draws_def
    by (auto intro: step.intros)
  then have "step\<^sup>*\<^sup>* ai ai6"
    by (meson rtranclp.rtrancl_into_rtrancl rtranclp.rtrancl_refl)
  moreover have "step\<^sup>*\<^sup>* ai6 ai7"
    unfolding ai7_def by (auto intro: step.insolvency)
  ultimately have "step\<^sup>*\<^sup>* ai ai7" by simp
  moreover have "snd (runMonth eco d ai) = ai7"
    unfolding ai7_def ai6_def ai5_def ai4_def ai3_def ai2_def ai1_def
    by (simp add: runMonth_def Let_def split: prod.splits)
  ultimately show ?thesis by simp
qed

section \<open>Invariant of the reachable states\<close>

lemma step_inv: "step ai ai' \<Longrightarrow> agent_inv ai \<Longrightarrow> agent_inv ai'"
  by (induction rule: step.induct)
    (auto simp: agent_inv_def processIncome_def processExpenses_def randomEvents_def
      decisionEngine_def applyInvestments_def updateStress_def executeAction_frame
      executeAction_business Let_def split: option.splits)

lemma reachable_inv: "reachable ai \<Longrightarrow> agent_inv ai"
proof (induction rule: reachable.induct)
  case (created rt di nm iq col)
  then show ?case by (simp add: agent_inv_def createAI_def)
next
  case (stepped ai ai')
  then show ?case by (simp add: step_inv)
qed

lemma agents_reachable: "ai \<in> set agents \<Longrightarrow> reachable ai"
  by (auto simp: agents_def intro: reachable.created)

lemma risky_paid_eq: "risky_paid = risky\<lparr>cash := 5500\<rparr>"
  by (simp add: risky_paid_def risky_def createAI_def processIncome_def processExpenses_def Let_def)

lemma risky_owner_eq:
  "risky_owner = risky\<lparr>cash := 500, business := Some \<lparr>revenue = 1000\<rparr>\<rparr>"
  by (simp add: risky_owner_def risky_paid_eq risky_def createAI_def decisionEngine_def
      best_action_def pick_def scores_def getContext_def js_div_def js_sub_def Let_def)

lemma reachable_risky_owner: "reachable risky_owner"
proof -
  have "reachable risky"
    unfolding risky_def by (rule reachable.created) simp_all
  then have "reachable (processIncome 0.5 risky)"
    by (rule reachable.stepped) (simp add: step.income valid_draw_def)
  then have "reachable risky_paid"
    unfolding risky_paid_def by (rule reachable.stepped) (rule step.expenses)
  then show ?thesis
    unfolding risky_owner_def
    by (rule reachable.stepped) (simp add: step.decision valid_draw_def)
qed

section \<open>The loop over the population\<close>

lemma for_each_agent_length:
  "length (snd (for_each_agent eco D i ags acts)) = length ags"
  by (induction ags arbitrary: i acts) (simp_all add: Let_def split_beta)

lemma for_each_agent_names:
  "map name (snd (for_each_agent eco D i ags acts)) = map name ags"
  by (induction ags arbitrary: i acts) (simp_all add: Let_def split_beta runMonth_name)

lemma for_each_agent_other:
  "n \<notin> name ` set ags \<Longrightarrow> fst (for_each_agent eco D i ags acts) n = acts n"
  by (induction ags arbitrary: i acts) (simp_all add: Let_def split_beta)

lemma for_each_agent_dead:
  assumes "j < length ags" and "\<not> alive (ags ! j)"
  shows "snd (for_each_agent eco D i ags acts) ! j = ags ! j"
  using assms
proof (induction ags arbitrary: i acts j)
  case Nil
  then show ?case by simp
next
  case (Cons ai rest)
  show ?case
  proof (cases j)
    case 0
    with Cons.prems show ?thesis
      by (simp add: Let_def split_beta)
  next
    case (Suc j')
    with Cons.prems have "snd (for_each_agent eco D (Suc i) rest acts') ! j' = rest ! j'" for acts'
      using Cons.IH by simp
    with Suc show ?thesis
      by (simp add: Let_def split_beta)
  qed
qed

lemma for_each_agent_bankrupt:
  assumes "j < length ags" and "\<not> alive (ags ! j)" and "distinct (map name ags)"
  shows "fst (for_each_agent eco D i ags acts) (name (ags ! j)) = Some ''BANKRUPT''"
  using assms
proof (induction ags arbitrary: i acts j)
  case Nil
  then show ?case by simp
next
  case (Cons ai rest)
  show ?case
  proof (cases j)
    case 0
    have "name ai \<notin> name ` set rest"
      using Cons.prems(3) by auto
    then have "fst (for_each_agent eco D (Suc i) rest (acts(name ai \<mapsto> ''BANKRUPT''))) (name ai)
        = Some ''BANKRUPT''"
      by (simp add: for_each_agent_other)
    with 0 Cons.prems show ?thesis
      by (simp add: Let_def split_beta)
  next
    case (Suc j')
    with Cons.prems
    have "fst (for_each_agent eco D (Suc i) rest acts') (name (rest ! j')) = Some ''BANKRUPT''"
      for acts'
      using Cons.IH by simp
    with Suc show ?thesis
      by (simp add: Let_def split_beta)
  qed
qed

lemma simulateMonth_None:
  "simulateMonth eco D st = (None, st') \<Longrightarrow> TOTAL_MONTHS \<le> currentMonth st"
  by (simp add: simulateMonth_def Let_def split: if_splits prod.splits)

lemma simulateMonth_Some:
  assumes "simulateMonth eco D st = (Some acts, st')"
  shows "currentMonth st < TOTAL_MONTHS"
    and "currentMonth st' = currentMonth st + 1"
    and "acts = fst (for_each_agent eco D 0 (population st) Map.empty)"
    and "population st' = snd (for_each_agent eco D 0 (population st) Map.empty)"
  using assms by (auto simp: simulateMonth_def Let_def split: if_splits prod.splits)

lemma simulation_length:
  "length (simulation eco D st) = TOTAL_MONTHS - currentMonth st"
proof (induction eco D st rule: simulation.induct)
  case (1 eco D st)
  obtain r st' where r: "simulateMonth eco (D (currentMonth st + 1)) st = (r, st')"
    by (cases "simulateMonth eco (D (currentMonth st + 1)) st")
  show ?case
  proof (cases r)
    case None
    then show ?thesis
      using r simulateMonth_None [of eco _ st st'] by (simp add: simulation.simps [of eco D st])
  next
    case (Some acts)
    note sm = simulateMonth_Some [OF r [unfolded Some]]
    have "length (simulation eco D st') = TOTAL_MONTHS - currentMonth st'"
      using "1.IH" r Some by simp
    moreover have "simulation eco D st = (acts, st') # simulation eco D st'"
      using r Some by (simp add: simulation.simps [of eco D st])
    ultimately show ?thesis
      using sm(1,2) by simp
  qed
qed

lemma simulation_dead:
  assumes "(acts, st') \<in> set (simulation eco D st)"
    and "j < length (population st)" and "\<not> alive (population st ! j)"
  shows "population st' ! j = population st ! j \<and>
    (distinct (map name (population st)) \<longrightarrow>
       acts (name (population st ! j)) = Some ''BANKRUPT'')"
  using assms
proof (induction eco D st rule: simulation.induct)
  case (1 eco D st)
  obtain r st1 where r: "simulateMonth eco (D (currentMonth st + 1)) st = (r, st1)"
    by (cases "simulateMonth eco (D (currentMonth st + 1)) st")
  show ?case
  proof (cases r)
    case None
    then show ?thesis
      using r "1.prems"(1) by (simp add: simulation.simps [of eco D st])
  next
    case (Some acts1)
    note sm = simulateMonth_Some [OF r [unfolded Some]]
    have same: "population st1 ! j = population st ! j"
      using sm(4) "1.prems"(2,3) by (simp add: for_each_agent_dead)
    have len: "j < length (population st1)"
      using sm(4) "1.prems"(2) by (simp add: for_each_agent_length)
    have names: "map name (population st1) = map name (population st)"
      using sm(4) by (simp add: for_each_agent_names)
    have first: "distinct (map name (population st)) \<longrightarrow>
        acts1 (name (population st ! j)) = Some ''BANKRUPT''"
      using sm(3) "1.prems"(2,3) by (simp add: for_each_agent_bankrupt)
    from "1.prems"(1) r Some
    consider "(acts, st') = (acts1, st1)" | "(acts, st') \<in> set (simulation eco D st1)"
      by (auto simp: simulation.simps [of eco D st])
    then show ?thesis
    proof cases
      case 1
      then show ?thesis using same first by simp
    next
      case 2
      have "population st' ! j = population st1 ! j \<and>
          (distinct (map name (population st1)) \<longrightarrow>
             acts (name (population st1 ! j)) = Some ''BANKRUPT'')"
        using "1.IH" [OF r [symmetric] Some 2 len] same "1.prems"(3) by simp
      then show ?thesis using same names by simp
    qed
  qed
qed

lemma agents_names: "map name agents = [''Conservative'', ''Balanced'', ''Risky'']"
  by (simp add: agents_def createAI_def)

section \<open>Context derivation\<close>

text \<open>
  C1, as the specification states it: for every agent whose fixed monthly costs sum to
  zero, \<open>getContext\<close> raises an explicit error rather than returning a non-finite
  \<open>emergencyMonths\<close>. The function has no check and no \<open>throw\<close>, and a division by
  zero does not throw: at the agent \<open>zero_cost_agent\<close>, whose costs sum to zero and
  whose cash is 5000, the call returns, and \<open>emergencyMonths\<close> is \<open>Infinity\<close>.
\<close>

theorem getContext_zero_costs_counterexample:
  "rent zero_cost_agent + food zero_cost_agent + otherExpenses zero_cost_agent = 0 \<and>
   getContext zero_cost_agent = \<lparr>emergencyMonths = PInf\<rparr> \<and>
   \<not> js_finite (emergencyMonths (getContext zero_cost_agent))"
  by (simp add: zero_cost_agent_def createAI_def getContext_def js_div_def)

text \<open>
  C1, amended: \<open>getContext\<close> performs no check. For every agent whose fixed costs sum
  to zero it returns a non-finite \<open>emergencyMonths\<close>: \<open>NaN\<close> when cash is zero,
  \<open>Infinity\<close> when cash is positive, \<open>-Infinity\<close> when cash is negative. For every
  other agent it returns cash divided by the sum of the fixed costs.
\<close>

theorem getContext_no_guard:
  "(rent ai + food ai + otherExpenses ai = 0 \<longrightarrow>
      getContext ai =
        \<lparr>emergencyMonths = (if cash ai = 0 then NaN else if 0 < cash ai then PInf else NInf)\<rparr> \<and>
      \<not> js_finite (emergencyMonths (getContext ai))) \<and>
   (rent ai + food ai + otherExpenses ai \<noteq> 0 \<longrightarrow>
      getContext ai =
        \<lparr>emergencyMonths = Fin (cash ai / (rent ai + food ai + otherExpenses ai))\<rparr>)"
  by (simp add: getContext_def js_div_def)

theorem getContext_no_guard_witness:
  "rent zero_cost_agent + food zero_cost_agent + otherExpenses zero_cost_agent = 0 \<and>
   getContext zero_cost_agent = \<lparr>emergencyMonths = PInf\<rparr> \<and>
   rent balanced + food balanced + otherExpenses balanced \<noteq> 0 \<and>
   getContext balanced = \<lparr>emergencyMonths = Fin (10 / 3)\<rparr>"
  using getContext_no_guard [of zero_cost_agent] getContext_no_guard [of balanced]
  by (simp add: zero_cost_agent_def balanced_def createAI_def)

section \<open>The decision policy\<close>

text \<open>
  C2, as the specification states it: when two or more actions share the maximal
  score, \<open>decisionEngine\<close> returns the earliest of them in the order save, invest,
  start_business, job_search. At \<open>tied_agent\<close> with every draw 0.5 (no jitter) the
  scores are -21.25, 22.5, 22.5 and -100: \<open>invest\<close> and \<open>start_business\<close> share
  the maximum, and the reduction returns \<open>start_business\<close>, the later of the two.
\<close>

theorem decisionEngine_tie_counterexample:
  "scores (\<lambda>k. 0.5) tied_agent save = Fin (- 21.25) \<and>
   scores (\<lambda>k. 0.5) tied_agent invest = Fin 22.5 \<and>
   scores (\<lambda>k. 0.5) tied_agent start_business = Fin 22.5 \<and>
   scores (\<lambda>k. 0.5) tied_agent job_search = Fin (- 100) \<and>
   key_index invest < key_index start_business \<and>
   fst (decisionEngine (\<lambda>k. 0.5) tied_agent) = start_business"
  by (simp add: decisionEngine_def best_action_def pick_def scores_def getContext_def
      js_div_def js_sub_def tied_agent_def createAI_def Let_def)

text \<open>
  C2, amended: \<open>decisionEngine\<close> selects an action whose post-jitter score no other
  action exceeds, and on an exact tie it selects the last such action in the order
  save, invest, start_business, job_search: the selected score strictly exceeds the
  score of every later key, so a key with the same score is never later than the
  selected one. This holds for every agent state and all draws.
\<close>

theorem decisionEngine_tie_break:
  "fst (decisionEngine u ai) = best \<Longrightarrow>
     (\<forall>k. \<not> js_gt (scores u ai k) (scores u ai best)) \<and>
     (\<forall>k. key_index best < key_index k \<longrightarrow> js_gt (scores u ai best) (scores u ai k)) \<and>
     (\<forall>k. scores u ai k = scores u ai best \<longrightarrow> key_index k \<le> key_index best)"
proof -
  assume "fst (decisionEngine u ai) = best"
  then have lm: "last_max (scores u ai) [save, invest, start_business, job_search] best"
    using decisionEngine_last_max [of u ai] by simp
  have 1: "\<not> js_gt (scores u ai k) (scores u ai best)" for k
    using lm all_actions unfolding last_max_def by blast
  have 2: "js_gt (scores u ai best) (scores u ai k)" if "key_index best < key_index k" for k
    using lm all_actions that unfolding last_max_def by blast
  have 3: "key_index k \<le> key_index best" if "scores u ai k = scores u ai best" for k
  proof (rule ccontr)
    assume "\<not> key_index k \<le> key_index best"
    then have "js_gt (scores u ai best) (scores u ai k)" using 2 by simp
    then show False using that by (simp add: js_gt_irrefl)
  qed
  show ?thesis using 1 2 3 by blast
qed

theorem decisionEngine_tie_break_witness:
  "fst (decisionEngine (\<lambda>k. 0.5) tied_agent) = start_business \<and>
   \<not> js_gt (scores (\<lambda>k. 0.5) tied_agent invest) (scores (\<lambda>k. 0.5) tied_agent start_business) \<and>
   key_index start_business < key_index job_search \<and>
   js_gt (scores (\<lambda>k. 0.5) tied_agent start_business) (scores (\<lambda>k. 0.5) tied_agent job_search) \<and>
   scores (\<lambda>k. 0.5) tied_agent invest = scores (\<lambda>k. 0.5) tied_agent start_business \<and>
   key_index invest \<le> key_index start_business"
proof -
  have b: "fst (decisionEngine (\<lambda>k. 0.5) tied_agent) = start_business"
    by (simp add: decisionEngine_def best_action_def pick_def scores_def getContext_def
        js_div_def js_sub_def tied_agent_def createAI_def Let_def)
  have e: "scores (\<lambda>k. 0.5) tied_agent invest = scores (\<lambda>k. 0.5) tied_agent start_business"
    by (simp add: scores_def getContext_def js_div_def tied_agent_def createAI_def Let_def)
  from decisionEngine_tie_break [OF b] e b show ?thesis
    by simp
qed

section \<open>The event model\<close>

text \<open>
  C3: one call of \<open>randomEvents\<close> applies the outcome of exactly one branch, the first
  whose condition holds, or none. When the recession flag is set, the non-recession
  job-loss branch is never the one taken: the agent becomes unemployed and gains 20
  stress exactly when the draw is below 0.08, and is unchanged otherwise.
\<close>

theorem randomEvents_recession_priority:
  "randomEvents eco r ai =
     (case event_branch_of eco r of
        RecessionJobLoss \<Rightarrow> ai\<lparr>employed := False, stress := stress ai + 20\<rparr>
      | JobLoss \<Rightarrow> ai\<lparr>employed := False, stress := stress ai + 20\<rparr>
      | UnexpectedExpense \<Rightarrow> ai\<lparr>cash := cash ai - 2000\<rparr>
      | NoEvent \<Rightarrow> ai) \<and>
   (recession eco \<longrightarrow>
      event_branch_of eco r \<noteq> JobLoss \<and>
      (event_branch_of eco r = RecessionJobLoss) = (r < 0.08) \<and>
      randomEvents eco r ai =
        (if r < 0.08 then ai\<lparr>employed := False, stress := stress ai + 20\<rparr> else ai) \<and>
      (stress (randomEvents eco r ai) = stress ai + 20) = (r < 0.08))"
  by (simp add: randomEvents_def event_branch_of_def)

theorem randomEvents_recession_priority_witness:
  "recession economy \<and>
   event_branch_of economy 0.02 = RecessionJobLoss \<and>
   randomEvents economy 0.02 risky = risky\<lparr>employed := False, stress := stress risky + 20\<rparr> \<and>
   event_branch_of economy 0.08 = NoEvent \<and>
   randomEvents economy 0.08 risky = risky"
proof -
  have r: "recession economy"
    by (simp add: economy_def)
  note low = randomEvents_recession_priority
    [of economy "0.02" risky, THEN conjunct2, rule_format, OF r]
  note high = randomEvents_recession_priority
    [of economy "0.08" risky, THEN conjunct2, rule_format, OF r]
  have "event_branch_of economy 0.02 = RecessionJobLoss"
    using low by simp
  moreover have "randomEvents economy 0.02 risky =
      risky\<lparr>employed := False, stress := stress risky + 20\<rparr>"
    using low by simp
  moreover have "event_branch_of economy 0.08 = NoEvent"
    by (simp add: event_branch_of_def)
  moreover have "randomEvents economy 0.08 risky = risky"
    using high by simp
  ultimately show ?thesis
    using r by simp
qed

text \<open>
  C7: when the recession flag is set, \<open>randomEvents\<close> never changes cash: the
  unexpected-expense branch is never taken, and the result differs from the agent in
  \<open>employed\<close> and \<open>stress\<close> at most. A call that changes cash is a call with the
  flag unset and a draw in \<open>[0.03, 0.06)\<close>, and it deducts 2000.
\<close>

theorem randomEvents_recession_frame:
  "(recession eco \<longrightarrow>
      cash (randomEvents eco r ai) = cash ai \<and>
      event_branch_of eco r \<noteq> UnexpectedExpense \<and>
      randomEvents eco r ai =
        ai\<lparr>employed := employed (randomEvents eco r ai),
           stress := stress (randomEvents eco r ai)\<rparr>) \<and>
   (cash (randomEvents eco r ai) \<noteq> cash ai \<longrightarrow>
      \<not> recession eco \<and> 0.03 \<le> r \<and> r < 0.06 \<and>
      cash (randomEvents eco r ai) = cash ai - 2000)"
  by (simp add: randomEvents_def event_branch_of_def)

theorem randomEvents_recession_frame_witness:
  "recession economy \<and>
   cash (randomEvents economy 0.05 risky) = 5000 \<and>
   cash (randomEvents \<lparr>recession = False\<rparr> 0.05 risky) \<noteq> cash risky \<and>
   cash (randomEvents \<lparr>recession = False\<rparr> 0.05 risky) = 3000"
  using randomEvents_recession_frame [of economy "0.05" risky]
    randomEvents_recession_frame [of "\<lparr>recession = False\<rparr>" "0.05" risky]
  by (simp add: economy_def risky_def createAI_def randomEvents_def)

section \<open>Income and stress\<close>

text \<open>
  C8: for an employed agent with a side hustle and a business, \<open>processIncome\<close> adds
  exactly the salary, the side-hustle draw \<open>300 + u * 400\<close>, which lies in
  \<open>[300, 700)\<close>, and the revenue of the business to cash, and changes nothing else. In
  general each of the three terms is added when its flag is set and left out otherwise.
\<close>

theorem processIncome_additivity:
  "(employed ai \<and> sideHustle ai \<and> business ai = Some b \<and> valid_draw u \<longrightarrow>
      processIncome u ai = ai\<lparr>cash := cash ai + salary ai + (300 + u * 400) + revenue b\<rparr> \<and>
      300 \<le> 300 + u * 400 \<and> 300 + u * 400 < 700) \<and>
   processIncome u ai =
     ai\<lparr>cash := cash ai + (if employed ai then salary ai else 0)
                  + (if sideHustle ai then 300 + u * 400 else 0)
                  + (case business ai of None \<Rightarrow> 0 | Some b \<Rightarrow> revenue b)\<rparr>"
  by (simp add: processIncome_def valid_draw_def Let_def split: option.splits)

theorem processIncome_additivity_witness:
  "employed (risky\<lparr>sideHustle := True, business := Some \<lparr>revenue = 1000\<rparr>\<rparr>) \<and>
   sideHustle (risky\<lparr>sideHustle := True, business := Some \<lparr>revenue = 1000\<rparr>\<rparr>) \<and>
   valid_draw 0.25 \<and>
   cash (processIncome 0.25 (risky\<lparr>sideHustle := True, business := Some \<lparr>revenue = 1000\<rparr>\<rparr>))
     = 5000 + 2000 + 400 + 1000"
  using processIncome_additivity
    [of "risky\<lparr>sideHustle := True, business := Some \<lparr>revenue = 1000\<rparr>\<rparr>" "\<lparr>revenue = 1000\<rparr>" "0.25"]
  by (simp add: risky_def createAI_def valid_draw_def)

text \<open>
  C6: after a full monthly tick the stress of the agent is at least 0, whatever the
  events, the action and the draws were; \<open>updateStress\<close> alone already ensures it.
\<close>

theorem runMonth_stress_floor:
  "0 \<le> stress (snd (runMonth eco d ai)) \<and> 0 \<le> stress (updateStress ai)"
  by (simp add: runMonth_def updateStress_def Let_def split: prod.splits)

theorem runMonth_stress_floor_witness:
  "stress (updateStress (risky\<lparr>stress := 2\<rparr>)) = 0 \<and>
   0 \<le> stress (snd (runMonth economy mid_draws risky))"
  using runMonth_stress_floor [of economy mid_draws risky]
  by (simp add: updateStress_def risky_def createAI_def)

section \<open>The scenario of the unemployed agent\<close>

lemma scenario_scores:
  assumes "\<not> employed ai" "cash ai = 100" "business ai = None"
    "rent ai + food ai + otherExpenses ai = 1500"
  shows "initial_scores ai save = Fin (176 / 3 + discipline ai * 10 - riskTolerance ai * 5)"
    and "initial_scores ai invest = Fin (- 100)"
    and "initial_scores ai start_business = Fin (- 100)"
    and "initial_scores ai job_search = Fin 100"
  using assms emergencyMonths_finite [of ai] by (simp_all add: js_sub_def)

text \<open>
  C9: for an unemployed agent with cash 100, no business and fixed costs that sum to
  1500, whose discipline is at most 1 and whose risk tolerance is at least 0 (the
  traits of an agent lie in \<open>[0, 1]\<close>), \<open>decisionEngine\<close> selects \<open>job_search\<close>
  for all four draws in \<open>[0, 1)\<close>: the \<open>job_search\<close> score is 100, and every other
  score plus the largest jitter 2.5 is below 100 minus 2.5.
\<close>

theorem scenario_job_search:
  assumes "\<not> employed ai" "cash ai = 100" "business ai = None"
    and "rent ai + food ai + otherExpenses ai = 1500"
    and "discipline ai \<le> 1" "0 \<le> riskTolerance ai"
    and "valid_draw (u save)" "valid_draw (u invest)" "valid_draw (u start_business)"
      "valid_draw (u job_search)"
  shows "fst (decisionEngine u ai) = job_search \<and>
    initial_scores ai job_search = Fin 100 \<and>
    (\<forall>k. k \<noteq> job_search \<longrightarrow>
       (\<exists>x. initial_scores ai k = Fin x \<and> x + 2.5 < 100 - 2.5) \<and>
       js_gt (scores u ai job_search) (scores u ai k))"
proof -
  note sc = scenario_scores [OF assms(1-4)]
  have gap: "\<exists>x. initial_scores ai k = Fin x \<and> x + 2.5 < 100 - 2.5" if "k \<noteq> job_search" for k
    using that sc assms(5,6) by (cases k) simp_all
  have win: "js_gt (scores u ai job_search) (scores u ai k)" if k: "k \<noteq> job_search" for k
  proof -
    obtain x where x: "initial_scores ai k = Fin x" "x + 2.5 < 100 - 2.5"
      using gap [OF k] by blast
    have "u k < 1" "0 \<le> u job_search"
      using assms(7-10) by (cases k; simp add: valid_draw_def)+
    then have "x + (u k - 0.5) * 5 < 100 + (u job_search - 0.5) * 5"
      using x(2) by simp
    then show ?thesis
      using x(1) sc(4) by (simp add: scores_def)
  qed
  have "fst (decisionEngine u ai) = job_search"
    using win by (rule decisionEngine_dominant)
  then show ?thesis using sc(4) gap win by blast
qed

theorem scenario_job_search_witness:
  "\<not> employed scenario_agent \<and> cash scenario_agent = 100 \<and> business scenario_agent = None \<and>
   rent scenario_agent + food scenario_agent + otherExpenses scenario_agent = 1500 \<and>
   discipline scenario_agent \<le> 1 \<and> 0 \<le> riskTolerance scenario_agent \<and> valid_draw 0.5 \<and>
   fst (decisionEngine (\<lambda>k. 0.5) scenario_agent) = job_search \<and>
   js_gt (scores (\<lambda>k. 0.5) scenario_agent job_search) (scores (\<lambda>k. 0.5) scenario_agent save)"
proof -
  have h: "\<not> employed scenario_agent" "cash scenario_agent = 100" "business scenario_agent = None"
    "rent scenario_agent + food scenario_agent + otherExpenses scenario_agent = 1500"
    "discipline scenario_agent \<le> 1" "0 \<le> riskTolerance scenario_agent"
    by (simp_all add: scenario_agent_def balanced_def createAI_def)
  have v: "valid_draw 0.5"
    by (simp add: valid_draw_def)
  from scenario_job_search [of scenario_agent "\<lambda>k. 0.5", OF h v v v v] h v
  show ?thesis by simp
qed

section \<open>Business creation\<close>

lemma business_blocks:
  assumes inv: "agent_inv ai" and b: "business ai \<noteq> None"
    and u: "valid_draw (u save)" "valid_draw (u invest)" "valid_draw (u start_business)"
  shows "\<exists>k. k \<noteq> start_business \<and> js_gt (scores u ai k) (scores u ai start_business)"
proof -
  have em: "emergencyMonths (getContext ai) = Fin (cash ai / 1500)"
    using inv emergencyMonths_finite [of ai] by (simp add: agent_inv_def)
  have sb: "scores u ai start_business = Fin (- 100 + (u start_business - 0.5) * 5)"
    using b by (cases "business ai") (simp_all add: scores_def)
  show ?thesis
  proof (cases "3 < cash ai / 1500")
    case True
    then have "scores u ai invest =
        Fin (cash ai / 1500 * 5 + discipline ai * 10 + (u invest - 0.5) * 5)"
      using em by (simp add: scores_def)
    moreover have "- 100 + (u start_business - 0.5) * 5
        < cash ai / 1500 * 5 + discipline ai * 10 + (u invest - 0.5) * 5"
      using True inv u by (simp add: agent_inv_def valid_draw_def)
    ultimately have "js_gt (scores u ai invest) (scores u ai start_business)"
      using sb by simp
    then show ?thesis by blast
  next
    case False
    have "scores u ai save =
        Fin ((3 - cash ai / 1500) * 20 + discipline ai * 10 - riskTolerance ai * 5
             + (u save - 0.5) * 5)"
      using em by (simp add: scores_def js_sub_def)
    moreover have "- 100 + (u start_business - 0.5) * 5
        < (3 - cash ai / 1500) * 20 + discipline ai * 10 - riskTolerance ai * 5
          + (u save - 0.5) * 5"
      using False inv u by (simp add: agent_inv_def valid_draw_def)
    ultimately have "js_gt (scores u ai save) (scores u ai start_business)"
      using sb by simp
    then show ?thesis by blast
  qed
qed

text \<open>
  C4: in every reachable agent state in which a business is present and for all draws in
  \<open>[0, 1)\<close>, the \<open>start_business\<close> score is the one based on -100, some other action
  has a strictly greater post-jitter score, and \<open>decisionEngine\<close> does not select
  \<open>start_business\<close>. Executing \<open>start_business\<close> leaves a business with revenue 1000;
  a reachable state has either no business or that one; and once it is present, no chain
  of operations and no month of \<open>runMonth\<close> changes or removes it.
\<close>

theorem business_exactly_once:
  "(reachable ai \<and> business ai \<noteq> None \<and> valid_draw (u save) \<and> valid_draw (u invest) \<and>
    valid_draw (u start_business) \<and> valid_draw (u job_search) \<longrightarrow>
      initial_scores ai start_business = Fin (- 100) \<and>
      (\<exists>k. k \<noteq> start_business \<and> js_gt (scores u ai k) (scores u ai start_business)) \<and>
      fst (decisionEngine u ai) \<noteq> start_business) \<and>
   business (executeAction ai start_business) = Some \<lparr>revenue = 1000\<rparr> \<and>
   (reachable ai \<longrightarrow> business ai = None \<or> business ai = Some \<lparr>revenue = 1000\<rparr>) \<and>
   (business ai = Some \<lparr>revenue = 1000\<rparr> \<and> step\<^sup>*\<^sup>* ai ai' \<longrightarrow>
      business ai' = Some \<lparr>revenue = 1000\<rparr>) \<and>
   (business ai = Some \<lparr>revenue = 1000\<rparr> \<and> valid_draws d \<longrightarrow>
      business (snd (runMonth eco d ai)) = Some \<lparr>revenue = 1000\<rparr>)"
proof -
  have 1: "initial_scores ai start_business = Fin (- 100) \<and>
      (\<exists>k. k \<noteq> start_business \<and> js_gt (scores u ai k) (scores u ai start_business)) \<and>
      fst (decisionEngine u ai) \<noteq> start_business"
    if r: "reachable ai" and b: "business ai \<noteq> None"
      and v: "valid_draw (u save)" "valid_draw (u invest)" "valid_draw (u start_business)"
  proof -
    have ex: "\<exists>k. k \<noteq> start_business \<and> js_gt (scores u ai k) (scores u ai start_business)"
      using reachable_inv [OF r] b v by (rule business_blocks)
    then have "fst (decisionEngine u ai) \<noteq> start_business"
      using decisionEngine_not_exceeded [of u ai] by metis
    moreover have "initial_scores ai start_business = Fin (- 100)"
      using b by (cases "business ai") simp_all
    ultimately show ?thesis using ex by blast
  qed
  have 2: "business (executeAction ai start_business) = Some \<lparr>revenue = 1000\<rparr>"
    by simp
  have 3: "business ai = None \<or> business ai = Some \<lparr>revenue = 1000\<rparr>" if "reachable ai"
    using reachable_inv [OF that] by (simp add: agent_inv_def)
  have 4: "business ai' = Some \<lparr>revenue = 1000\<rparr>"
    if "business ai = Some \<lparr>revenue = 1000\<rparr>" "step\<^sup>*\<^sup>* ai ai'"
    using that steps_business by blast
  have 5: "business (snd (runMonth eco d ai)) = Some \<lparr>revenue = 1000\<rparr>"
    if "business ai = Some \<lparr>revenue = 1000\<rparr>" "valid_draws d"
    using that steps_business [OF runMonth_steps] by blast
  show ?thesis using 1 2 3 4 5 by blast
qed

theorem business_exactly_once_witness:
  "reachable risky_owner \<and> business risky_owner = Some \<lparr>revenue = 1000\<rparr> \<and>
   valid_draw 0.5 \<and> valid_draws mid_draws \<and>
   step\<^sup>*\<^sup>* risky_owner (processExpenses risky_owner) \<and>
   fst (decisionEngine (\<lambda>k. 0.5) risky_owner) \<noteq> start_business \<and>
   business (processExpenses risky_owner) = Some \<lparr>revenue = 1000\<rparr> \<and>
   business (snd (runMonth economy mid_draws risky_owner)) = Some \<lparr>revenue = 1000\<rparr>"
proof -
  have b: "business risky_owner = Some \<lparr>revenue = 1000\<rparr>"
    by (simp add: risky_owner_eq)
  have v: "valid_draw 0.5" "valid_draws mid_draws"
    by (simp_all add: valid_draw_def valid_draws_def mid_draws_def)
  have s: "step\<^sup>*\<^sup>* risky_owner (processExpenses risky_owner)"
    by (simp add: step.expenses r_into_rtranclp)
  note t = business_exactly_once [of risky_owner "\<lambda>k. 0.5" "processExpenses risky_owner"
      mid_draws economy]
  show ?thesis
    using t reachable_risky_owner b v s by simp
qed

section \<open>The side hustle\<close>

text \<open>
  C10: \<open>createAI\<close> sets \<open>sideHustle\<close> to false and no operation assigns it, so it is
  false in every state reached from an agent made by \<open>createAI\<close>: there the
  precondition of income additivity (employed, side hustle and business together) never
  holds, and \<open>processIncome\<close> adds the salary and the revenue only, whatever the draw.
\<close>

theorem sideHustle_never_set:
  "\<not> sideHustle (createAI nm rt di iq col) \<and>
   (step ai ai' \<longrightarrow> sideHustle ai' = sideHustle ai) \<and>
   (step\<^sup>*\<^sup>* (createAI nm rt di iq col) ai \<longrightarrow>
      \<not> sideHustle ai \<and>
      \<not> (employed ai \<and> sideHustle ai \<and> business ai \<noteq> None) \<and>
      processIncome u ai =
        ai\<lparr>cash := cash ai + (if employed ai then salary ai else 0)
                     + (case business ai of None \<Rightarrow> 0 | Some b \<Rightarrow> revenue b)\<rparr>)"
proof -
  have 1: "\<not> sideHustle (createAI nm rt di iq col)"
    by (simp add: createAI_def)
  have 2: "\<not> sideHustle ai" if "step\<^sup>*\<^sup>* (createAI nm rt di iq col) ai"
    using steps_sideHustle [OF that] 1 by simp
  have 3: "processIncome u ai =
        ai\<lparr>cash := cash ai + (if employed ai then salary ai else 0)
                     + (case business ai of None \<Rightarrow> 0 | Some b \<Rightarrow> revenue b)\<rparr>"
    if "\<not> sideHustle ai"
    using that by (simp add: processIncome_def Let_def split: option.splits)
  show ?thesis using 1 2 3 step_sideHustle by blast
qed

theorem sideHustle_never_set_witness:
  "step risky (processExpenses risky) \<and>
   step\<^sup>*\<^sup>* (createAI ''Risky'' 0.9 0.3 0.7 ''#ff9800'') (processExpenses risky) \<and>
   sideHustle (processExpenses risky) = sideHustle risky \<and>
   \<not> sideHustle (processExpenses risky) \<and>
   cash (processIncome 0.25 (processExpenses risky)) = 5500"
proof -
  have s: "step risky (processExpenses risky)"
    by (rule step.expenses)
  then have r: "step\<^sup>*\<^sup>* (createAI ''Risky'' 0.9 0.3 0.7 ''#ff9800'') (processExpenses risky)"
    unfolding risky_def by (rule r_into_rtranclp)
  note t1 = sideHustle_never_set [where ai = risky and ai' = "processExpenses risky"]
  note t2 = sideHustle_never_set [where nm = "''Risky''" and rt = "0.9" and di = "0.3"
      and iq = "0.7" and col = "''#ff9800''" and ai = "processExpenses risky" and u = "0.25"]
  have "sideHustle (processExpenses risky) = sideHustle risky"
    using t1 s by simp
  moreover have "\<not> sideHustle (processExpenses risky)"
    using t2 r by simp
  moreover have "cash (processIncome 0.25 (processExpenses risky)) = 5500"
    using t2 r by (simp add: processExpenses_def risky_def createAI_def)
  ultimately show ?thesis using s r by simp
qed

section \<open>Bankruptcy\<close>

text \<open>
  C5: no operation and no month of \<open>runMonth\<close> sets \<open>alive\<close> back to true. The
  simulation emits one action map for each month that remains; in every one of them an
  agent that is dead at the start is still in the state it was in (no step of the
  monthly tick ran for it), and, the names of the population being distinct as those of
  the three agents of the program are, the map holds \<open>"BANKRUPT"\<close> under its name,
  a label that no action has.
\<close>

theorem death_is_terminal:
  "(step ai ai' \<and> \<not> alive ai \<longrightarrow> \<not> alive ai') \<and>
   (\<not> alive ai \<longrightarrow> \<not> alive (snd (runMonth eco d ai))) \<and>
   length (simulation eco D st) = TOTAL_MONTHS - currentMonth st \<and>
   ((acts, st') \<in> set (simulation eco D st) \<and> j < length (population st) \<and>
    \<not> alive (population st ! j) \<longrightarrow>
      population st' ! j = population st ! j \<and>
      (distinct (map name (population st)) \<longrightarrow>
         acts (name (population st ! j)) = Some ''BANKRUPT'')) \<and>
   distinct (map name agents) \<and>
   action_label k \<noteq> ''BANKRUPT''"
proof -
  have "action_label k \<noteq> ''BANKRUPT''"
    by (cases k) simp_all
  moreover have "distinct (map name agents)"
    by (simp add: agents_names)
  ultimately show ?thesis
    using step_alive [of ai ai'] runMonth_alive [of ai eco d] simulation_length [of eco D st]
      simulation_dead [of acts st' eco D st j]
    by blast
qed

theorem death_is_terminal_witness:
  "step (risky\<lparr>cash := - 100, alive := False\<rparr>)
     (processExpenses (risky\<lparr>cash := - 100, alive := False\<rparr>)) \<and>
   \<not> alive (risky\<lparr>cash := - 100, alive := False\<rparr>) \<and>
   \<not> alive (processExpenses (risky\<lparr>cash := - 100, alive := False\<rparr>)) \<and>
   \<not> alive (snd (runMonth economy mid_draws (risky\<lparr>cash := - 100, alive := False\<rparr>))) \<and>
   length (simulation economy (\<lambda>m i. mid_draws) late_state) = 1 \<and>
   hd (simulation economy (\<lambda>m i. mid_draws) late_state)
     \<in> set (simulation economy (\<lambda>m i. mid_draws) late_state) \<and>
   0 < length (population late_state) \<and>
   \<not> alive (population late_state ! 0) \<and>
   distinct (map name (population late_state)) \<and>
   population (snd (hd (simulation economy (\<lambda>m i. mid_draws) late_state))) ! 0 =
     risky\<lparr>cash := - 100, alive := False\<rparr> \<and>
   fst (hd (simulation economy (\<lambda>m i. mid_draws) late_state)) ''Risky'' = Some ''BANKRUPT''"
proof -
  let ?dead = "risky\<lparr>cash := - 100, alive := False\<rparr>"
  let ?sim = "simulation economy (\<lambda>m i. mid_draws) late_state"
  obtain acts st' where h: "hd ?sim = (acts, st')"
    by (cases "hd ?sim")
  note t = death_is_terminal [of ?dead "processExpenses ?dead" economy mid_draws
      "\<lambda>m i. mid_draws" late_state acts st' 0]
  have s: "step ?dead (processExpenses ?dead)"
    by (rule step.expenses)
  have d: "\<not> alive ?dead"
    by simp
  have len: "length ?sim = 1"
    using t by (simp add: late_state_def TOTAL_MONTHS_def)
  then have mem: "hd ?sim \<in> set ?sim"
    by (cases ?sim) simp_all
  have p: "0 < length (population late_state)" "\<not> alive (population late_state ! 0)"
    "distinct (map name (population late_state))" "population late_state ! 0 = ?dead"
    "name ?dead = ''Risky''"
    by (simp_all add: late_state_def risky_def balanced_def createAI_def)
  have "population st' ! 0 = ?dead \<and> acts ''Risky'' = Some ''BANKRUPT''"
    using t mem h p by simp
  then show ?thesis
    using t s d len mem p h by simp
qed

end
